theory Spec2Isabelle
  imports Complex_Main "HOL-Library.AList"
begin

section \<open>Python values and exceptions\<close>

text \<open>
  The host agent works on decoded JSON: the value \<^verbatim>\<open>json.loads\<close> returns. A Python
  \<^verbatim>\<open>dict\<close> is an association list in insertion order (its keys are distinct), a
  \<^verbatim>\<open>str\<close> is a \<^typ>\<open>string\<close>, one \<^typ>\<open>char\<close> for each character (the three emoji literals
  of the verification tool are written as their UTF-8 bytes).
\<close>

datatype json =
    JNull
  | JBool bool
  | JInt int
  | JFloat real
  | JStr string
  | JArr "json list"
  | JObj "(string \<times> json) list"

text \<open>
  Every exception of the model is a subclass of Python's \<^verbatim>\<open>Exception\<close>: the kinds the
  interpreter raises on an ill-typed value or a missing key, and \<open>Raised msg\<close> for whatever an external
  collaborator (the remote connection, the request validation, the generation backend, the
  JSON decoder) raises.
\<close>

datatype exn = AttributeError | TypeError | KeyError | Raised string

definition then_do :: "exn + 'a \<Rightarrow> ('a \<Rightarrow> exn + 'b) \<Rightarrow> exn + 'b" where
  "then_do m f = (case m of Inl e \<Rightarrow> Inl e | Inr x \<Rightarrow> f x)"

text \<open>Truth value testing, as \<^verbatim>\<open>if x:\<close> does it.\<close>

fun truthy :: "json \<Rightarrow> bool" where
  "truthy JNull = False"
| "truthy (JBool b) = b"
| "truthy (JInt i) = (i \<noteq> 0)"
| "truthy (JFloat r) = (r \<noteq> 0)"
| "truthy (JStr s) = (s \<noteq> [])"
| "truthy (JArr xs) = (xs \<noteq> [])"
| "truthy (JObj kvs) = (kvs \<noteq> [])"

text \<open>\<^verbatim>\<open>d.get(k, default)\<close> on a dict, and on any value: only a dict has \<^verbatim>\<open>get\<close>.\<close>

definition dict_get :: "(string \<times> json) list \<Rightarrow> string \<Rightarrow> json \<Rightarrow> json" where
  "dict_get d k dflt = (case map_of d k of None \<Rightarrow> dflt | Some v \<Rightarrow> v)"

fun py_get :: "json \<Rightarrow> string \<Rightarrow> json \<Rightarrow> exn + json" where
  "py_get (JObj d) k dflt = Inr (dict_get d k dflt)"
| "py_get _ k dflt = Inl AttributeError"

text \<open>
  \<^verbatim>\<open>for x in v\<close>: a list yields its elements, a string its characters, a dict its keys;
  nothing else is iterable (and nothing else has a \<^verbatim>\<open>len\<close>).
\<close>

fun py_iter :: "json \<Rightarrow> exn + json list" where
  "py_iter (JArr xs) = Inr xs"
| "py_iter (JStr s) = Inr (map (\<lambda>c. JStr [c]) s)"
| "py_iter (JObj kvs) = Inr (map (\<lambda>kv. JStr (fst kv)) kvs)"
| "py_iter _ = Inl TypeError"

text \<open>
  \<^verbatim>\<open>v[:100]\<close>: strings and lists can be sliced. A number is not subscriptable and a dict
  rejects a slice as a key; both raise (\<^verbatim>\<open>TypeError\<close>; for the dict CPython from 3.12 on
  raises \<^verbatim>\<open>KeyError\<close>, which the same handler catches).
\<close>

fun sliceable :: "json \<Rightarrow> bool" where
  "sliceable (JStr s) = True"
| "sliceable (JArr xs) = True"
| "sliceable _ = False"

text \<open>\<^verbatim>\<open>sep.join(xs)\<close>: every item has to be a string.\<close>

fun str_join :: "string \<Rightarrow> string list \<Rightarrow> string" where
  "str_join sep [] = []"
| "str_join sep [x] = x"
| "str_join sep (x # y # ys) = x @ sep @ str_join sep (y # ys)"

fun strs_of :: "json list \<Rightarrow> string list option" where
  "strs_of [] = Some []"
| "strs_of (JStr s # xs) = (case strs_of xs of None \<Rightarrow> None | Some ss \<Rightarrow> Some (s # ss))"
| "strs_of (x # xs) = None"

definition py_join :: "string \<Rightarrow> json list \<Rightarrow> exn + string" where
  "py_join sep xs = (case strs_of xs of None \<Rightarrow> Inl TypeError | Some ss \<Rightarrow> Inr (str_join sep ss))"

section \<open>Response extraction (\<^verbatim>\<open>HostAgent.send_message\<close>, lines 247 to 305)\<close>

text \<open>
  The text is collected in the list \<^verbatim>\<open>texts\<close>. Each function below is one loop body or one
  loop of the source, takes the list and returns it extended, or the exception raised.
  \<open>dumps\<close> stands for \<^verbatim>\<open>json.dumps(_, indent=2, ensure_ascii=False)\<close>.
\<close>

definition no_response :: string where
  "no_response = ''No response from agent''"

definition data_label :: string where
  "data_label = ''Extracted data:\<newline>''"

text \<open>Lines 263 to 280: one part of an artifact.\<close>

fun scan_part :: "(json \<Rightarrow> string) \<Rightarrow> json \<Rightarrow> json list \<Rightarrow> exn + json list" where
  "scan_part dumps (JObj part) texts =
     (if truthy (dict_get part ''text'' JNull) then
        (if sliceable (dict_get part ''text'' JNull)
         then Inr (texts @ [dict_get part ''text'' JNull])
         else Inl TypeError)
      else if truthy (dict_get part ''data'' JNull) then
        Inr (texts @ [JStr (data_label @ dumps (dict_get part ''data'' JNull))])
      else if dict_get part ''kind'' JNull = JStr ''text'' \<and> truthy (dict_get part ''text'' JNull) then
        Inr (texts @ [dict_get part ''text'' JNull])
      else Inr texts)"
| "scan_part dumps (JStr part) texts = Inr (texts @ [JStr part])"
| "scan_part dumps _ texts = Inr texts"

text \<open>Line 262: the loop over the parts.\<close>

fun scan_parts :: "(json \<Rightarrow> string) \<Rightarrow> json list \<Rightarrow> json list \<Rightarrow> exn + json list" where
  "scan_parts dumps [] texts = Inr texts"
| "scan_parts dumps (part # parts) texts =
     then_do (scan_part dumps part texts) (scan_parts dumps parts)"

text \<open>Lines 260 to 280: one artifact. \<^verbatim>\<open>artifact.keys()\<close> needs a dict.\<close>

fun scan_artifact :: "(json \<Rightarrow> string) \<Rightarrow> json \<Rightarrow> json list \<Rightarrow> exn + json list" where
  "scan_artifact dumps (JObj artifact) texts =
     (if truthy (dict_get artifact ''parts'' JNull)
      then then_do (py_iter (dict_get artifact ''parts'' JNull))
             (\<lambda>parts. scan_parts dumps parts texts)
      else Inr texts)"
| "scan_artifact dumps _ texts = Inl AttributeError"

text \<open>Line 259: the loop over the artifacts.\<close>

fun scan_artifacts :: "(json \<Rightarrow> string) \<Rightarrow> json list \<Rightarrow> json list \<Rightarrow> exn + json list" where
  "scan_artifacts dumps [] texts = Inr texts"
| "scan_artifacts dumps (artifact # artifacts) texts =
     then_do (scan_artifact dumps artifact texts) (scan_artifacts dumps artifacts)"

text \<open>
  Lines 289 to 292 and 296 to 299: the loops over \<^verbatim>\<open>messages\<close> and over the parts of the
  status message have the same body: a dict with a true \<^verbatim>\<open>text\<close> gives that text.
\<close>

fun scan_text_item :: "json \<Rightarrow> json list \<Rightarrow> json list" where
  "scan_text_item (JObj msg) texts =
     (if truthy (dict_get msg ''text'' JNull) then texts @ [dict_get msg ''text'' JNull] else texts)"
| "scan_text_item _ texts = texts"

fun scan_text_items :: "json list \<Rightarrow> json list \<Rightarrow> json list" where
  "scan_text_items [] texts = texts"
| "scan_text_items (msg # msgs) texts = scan_text_items msgs (scan_text_item msg texts)"

text \<open>Lines 257 to 280.\<close>

definition scan_result_artifacts :: "(json \<Rightarrow> string) \<Rightarrow> json \<Rightarrow> exn + json list" where
  "scan_result_artifacts dumps result =
     then_do (py_get result ''artifacts'' JNull) (\<lambda>artifacts.
       if truthy artifacts
       then then_do (py_iter artifacts) (\<lambda>as. scan_artifacts dumps as [])
       else Inr [])"

text \<open>Lines 283 to 285.\<close>

definition scan_result_text :: "json \<Rightarrow> json list \<Rightarrow> exn + json list" where
  "scan_result_text result texts =
     then_do (py_get result ''text'' JNull) (\<lambda>t.
       Inr (if truthy t then texts @ [t] else texts))"

text \<open>Lines 288 to 292.\<close>

definition scan_result_messages :: "json \<Rightarrow> json list \<Rightarrow> exn + json list" where
  "scan_result_messages result texts =
     then_do (py_get result ''messages'' JNull) (\<lambda>messages.
       if truthy messages
       then then_do (py_iter messages) (\<lambda>msgs. Inr (scan_text_items msgs texts))
       else Inr texts)"

text \<open>Lines 295 to 299.\<close>

definition scan_result_status :: "json \<Rightarrow> json list \<Rightarrow> exn + json list" where
  "scan_result_status result texts =
     then_do (py_get result ''status'' (JObj [])) (\<lambda>status.
     then_do (py_get status ''message'' (JObj [])) (\<lambda>message.
     then_do (py_get message ''parts'' JNull) (\<lambda>parts.
       if truthy parts
       then then_do (py_iter parts) (\<lambda>ps. Inr (scan_text_items ps texts))
       else Inr texts)))"

text \<open>Lines 253 to 299: the list \<^verbatim>\<open>texts\<close> when the scan ends.\<close>

definition collect_texts :: "(json \<Rightarrow> string) \<Rightarrow> json \<Rightarrow> exn + json list" where
  "collect_texts dumps json_content =
     then_do (py_get json_content ''result'' (JObj [])) (\<lambda>result.
     then_do (scan_result_artifacts dumps result) (\<lambda>texts1.
     then_do (scan_result_text result texts1) (\<lambda>texts2.
     then_do (scan_result_messages result texts2) (\<lambda>texts3.
       scan_result_status result texts3))))"

text \<open>Line 301.\<close>

definition response_text :: "json list \<Rightarrow> exn + string" where
  "response_text texts = (if texts \<noteq> [] then py_join ''\<newline>'' texts else Inr no_response)"

definition extract_text :: "(json \<Rightarrow> string) \<Rightarrow> json \<Rightarrow> exn + string" where
  "extract_text dumps json_content = then_do (collect_texts dumps json_content) response_text"


subsection \<open>The extraction without the \<^verbatim>\<open>kind\<close> branch\<close>

text \<open>
  The same scan with the third branch of the part (lines 274 to 277) deleted; everything
  else is as above. It is compared with the implemented extraction below.
\<close>

fun scan_part_no_kind :: "(json \<Rightarrow> string) \<Rightarrow> json \<Rightarrow> json list \<Rightarrow> exn + json list" where
  "scan_part_no_kind dumps (JObj part) texts =
     (if truthy (dict_get part ''text'' JNull) then
        (if sliceable (dict_get part ''text'' JNull)
         then Inr (texts @ [dict_get part ''text'' JNull])
         else Inl TypeError)
      else if truthy (dict_get part ''data'' JNull) then
        Inr (texts @ [JStr (data_label @ dumps (dict_get part ''data'' JNull))])
      else Inr texts)"
| "scan_part_no_kind dumps (JStr part) texts = Inr (texts @ [JStr part])"
| "scan_part_no_kind dumps _ texts = Inr texts"

fun scan_parts_no_kind :: "(json \<Rightarrow> string) \<Rightarrow> json list \<Rightarrow> json list \<Rightarrow> exn + json list" where
  "scan_parts_no_kind dumps [] texts = Inr texts"
| "scan_parts_no_kind dumps (part # parts) texts =
     then_do (scan_part_no_kind dumps part texts) (scan_parts_no_kind dumps parts)"

fun scan_artifact_no_kind :: "(json \<Rightarrow> string) \<Rightarrow> json \<Rightarrow> json list \<Rightarrow> exn + json list" where
  "scan_artifact_no_kind dumps (JObj artifact) texts =
     (if truthy (dict_get artifact ''parts'' JNull)
      then then_do (py_iter (dict_get artifact ''parts'' JNull))
             (\<lambda>parts. scan_parts_no_kind dumps parts texts)
      else Inr texts)"
| "scan_artifact_no_kind dumps _ texts = Inl AttributeError"

fun scan_artifacts_no_kind :: "(json \<Rightarrow> string) \<Rightarrow> json list \<Rightarrow> json list \<Rightarrow> exn + json list" where
  "scan_artifacts_no_kind dumps [] texts = Inr texts"
| "scan_artifacts_no_kind dumps (artifact # artifacts) texts =
     then_do (scan_artifact_no_kind dumps artifact texts) (scan_artifacts_no_kind dumps artifacts)"

definition scan_result_artifacts_no_kind :: "(json \<Rightarrow> string) \<Rightarrow> json \<Rightarrow> exn + json list" where
  "scan_result_artifacts_no_kind dumps result =
     then_do (py_get result ''artifacts'' JNull) (\<lambda>artifacts.
       if truthy artifacts
       then then_do (py_iter artifacts) (\<lambda>as. scan_artifacts_no_kind dumps as [])
       else Inr [])"

definition collect_texts_no_kind :: "(json \<Rightarrow> string) \<Rightarrow> json \<Rightarrow> exn + json list" where
  "collect_texts_no_kind dumps json_content =
     then_do (py_get json_content ''result'' (JObj [])) (\<lambda>result.
     then_do (scan_result_artifacts_no_kind dumps result) (\<lambda>texts1.
     then_do (scan_result_text result texts1) (\<lambda>texts2.
     then_do (scan_result_messages result texts2) (\<lambda>texts3.
       scan_result_status result texts3))))"

definition extract_text_no_kind :: "(json \<Rightarrow> string) \<Rightarrow> json \<Rightarrow> exn + string" where
  "extract_text_no_kind dumps json_content =
     then_do (collect_texts_no_kind dumps json_content) response_text"

subsection \<open>The fragments as the specification lists them\<close>

text \<open>
  The specification's list of fragments, written without the accumulator, in two readings.
  In both, a field of a value that is no dict is absent and the items of a value are what
  iterating over it yields (none when it cannot be iterated). In the first reading
  (\<open>spec_fragments\<close>) a field counts when its value is true for Python: a text is a
  non-empty string, a data field is a non-empty value.
\<close>

definition field :: "json \<Rightarrow> string \<Rightarrow> json" where
  "field v k = (case v of JObj d \<Rightarrow> dict_get d k JNull | _ \<Rightarrow> JNull)"

definition text_of :: "json \<Rightarrow> string list" where
  "text_of v = (case v of JStr s \<Rightarrow> (if s \<noteq> [] then [s] else []) | _ \<Rightarrow> [])"

definition items :: "json \<Rightarrow> json list" where
  "items v = (case py_iter v of Inl e \<Rightarrow> [] | Inr xs \<Rightarrow> xs)"

text \<open>
  A part: its text; else its data, pretty-printed after the label; else its text when its
  kind is \<^verbatim>\<open>text\<close>. A part that is a plain string is taken as it is.
\<close>

fun part_fragments :: "(json \<Rightarrow> string) \<Rightarrow> json \<Rightarrow> string list" where
  "part_fragments dumps (JObj part) =
     (if text_of (field (JObj part) ''text'') \<noteq> [] then text_of (field (JObj part) ''text'')
      else if truthy (field (JObj part) ''data'')
        then [data_label @ dumps (field (JObj part) ''data'')]
      else if field (JObj part) ''kind'' = JStr ''text'' then text_of (field (JObj part) ''text'')
      else [])"
| "part_fragments dumps (JStr part) = [part]"
| "part_fragments dumps _ = []"

definition artifact_fragments :: "(json \<Rightarrow> string) \<Rightarrow> json \<Rightarrow> string list" where
  "artifact_fragments dumps artifact =
     concat (map (part_fragments dumps) (items (field artifact ''parts'')))"

definition item_fragments :: "json \<Rightarrow> string list" where
  "item_fragments item = text_of (field item ''text'')"

text \<open>
  The artifacts' parts, then \<^verbatim>\<open>result.text\<close>, then the messages, then the parts of
  \<^verbatim>\<open>result.status.message\<close>.
\<close>

definition spec_fragments :: "(json \<Rightarrow> string) \<Rightarrow> json \<Rightarrow> string list" where
  "spec_fragments dumps response =
     concat (map (artifact_fragments dumps) (items (field (field response ''result'') ''artifacts'')))
     @ text_of (field (field response ''result'') ''text'')
     @ concat (map item_fragments (items (field (field response ''result'') ''messages'')))
     @ concat (map item_fragments
         (items (field (field (field (field response ''result'') ''status'') ''message'') ''parts'')))"

text \<open>
  The second reading takes the specification at its word: a field counts as soon as it is
  present. ``If a text field is present, take it; else if a data field is present, take its
  pretty-printed serialization prefixed with a fixed label; else if a kind field equals text
  and a text field is present, take it; parts given as plain strings are taken verbatim.''
\<close>

definition present_text :: "json \<Rightarrow> string list" where
  "present_text v =
     (case v of
        JObj d \<Rightarrow> (case map_of d ''text'' of Some (JStr s) \<Rightarrow> [s] | _ \<Rightarrow> [])
      | _ \<Rightarrow> [])"

fun listed_part :: "(json \<Rightarrow> string) \<Rightarrow> json \<Rightarrow> string list" where
  "listed_part dumps (JObj part) =
     (if present_text (JObj part) \<noteq> [] then present_text (JObj part)
      else (case map_of part ''data'' of
              Some v \<Rightarrow> [data_label @ dumps v]
            | None \<Rightarrow>
                if map_of part ''kind'' = Some (JStr ''text'') then present_text (JObj part)
                else []))"
| "listed_part dumps (JStr part) = [part]"
| "listed_part dumps _ = []"

definition listed_fragments :: "(json \<Rightarrow> string) \<Rightarrow> json \<Rightarrow> string list" where
  "listed_fragments dumps response =
     concat (map (\<lambda>artifact. concat (map (listed_part dumps) (items (field artifact ''parts''))))
               (items (field (field response ''result'') ''artifacts'')))
     @ present_text (field response ''result'')
     @ concat (map present_text (items (field (field response ''result'') ''messages'')))
     @ concat (map present_text
         (items (field (field (field (field response ''result'') ''status'') ''message'') ''parts'')))"

subsection \<open>Responses the extraction accepts\<close>

text \<open>
  The shape the extraction relies on, which the dump of a validated task has: the response
  and its result are dicts; the artifacts, the parts of an artifact, the messages and the
  parts of the status message are absent (or false) or can be iterated; every artifact is a
  dict; \<^verbatim>\<open>status\<close> and its \<^verbatim>\<open>message\<close> are dicts when present; and every text that is read
  is a string, or absent (or false).
\<close>

definition text_ok :: "json \<Rightarrow> bool" where
  "text_ok v = (case v of JStr s \<Rightarrow> True | _ \<Rightarrow> \<not> truthy v)"

fun part_ok :: "json \<Rightarrow> bool" where
  "part_ok (JObj part) = text_ok (dict_get part ''text'' JNull)"
| "part_ok _ = True"

definition iter_ok :: "(json \<Rightarrow> bool) \<Rightarrow> json \<Rightarrow> bool" where
  "iter_ok ok v =
     (if truthy v then (case py_iter v of Inl e \<Rightarrow> False | Inr xs \<Rightarrow> list_all ok xs) else True)"

fun artifact_ok :: "json \<Rightarrow> bool" where
  "artifact_ok (JObj artifact) = iter_ok part_ok (dict_get artifact ''parts'' JNull)"
| "artifact_ok _ = False"

definition status_ok :: "(string \<times> json) list \<Rightarrow> bool" where
  "status_ok result =
     (case dict_get result ''status'' (JObj []) of
        JObj status \<Rightarrow>
          (case dict_get status ''message'' (JObj []) of
             JObj message \<Rightarrow> iter_ok part_ok (dict_get message ''parts'' JNull)
           | _ \<Rightarrow> False)
      | _ \<Rightarrow> False)"

fun result_ok :: "json \<Rightarrow> bool" where
  "result_ok (JObj result) =
     (iter_ok artifact_ok (dict_get result ''artifacts'' JNull)
      \<and> text_ok (dict_get result ''text'' JNull)
      \<and> iter_ok part_ok (dict_get result ''messages'' JNull)
      \<and> status_ok result)"
| "result_ok _ = False"

fun well_formed :: "json \<Rightarrow> bool" where
  "well_formed (JObj response) = result_ok (dict_get response ''result'' (JObj []))"
| "well_formed _ = False"

text \<open>All the parts of all the artifacts of a response.\<close>

definition artifact_parts :: "json \<Rightarrow> json list" where
  "artifact_parts response =
     concat (map (\<lambda>artifact. items (field artifact ''parts''))
               (items (field (field response ''result'') ''artifacts'')))"

text \<open>
  What a scan has collected when it is over: the strings of its list, and nothing when it
  raised or when the list holds a value that \<^verbatim>\<open>join\<close> rejects.
\<close>

definition collected :: "exn + json list \<Rightarrow> string list option" where
  "collected r = (case r of Inl e \<Rightarrow> None | Inr texts \<Rightarrow> strs_of texts)"

definition add_strs :: "bool \<Rightarrow> string list \<Rightarrow> string list option \<Rightarrow> string list option" where
  "add_strs ok new acc =
     (case acc of None \<Rightarrow> None | Some ss \<Rightarrow> if ok then Some (ss @ new) else None)"

section \<open>Delegation (\<^verbatim>\<open>HostAgent.send_message\<close>)\<close>

text \<open>
  What the method takes from outside the repository's sources: \<^verbatim>\<open>str.lower\<close>,
  \<^verbatim>\<open>json.dumps\<close> with the options of line 271, \<^verbatim>\<open>str(e)\<close> of an exception,
  the values \<^verbatim>\<open>uuid.uuid4()\<close> returns (the \<open>n\<close>-th call returns \<open>uuid4 n\<close>), and
  \<^verbatim>\<open>MessageSendParams.model_validate\<close>, which raises or returns the payload validated.
\<close>

record lib =
  str_lower :: "string \<Rightarrow> string"
  json_dumps :: "json \<Rightarrow> string"
  exn_str :: "exn \<Rightarrow> string"
  uuid4 :: "nat \<Rightarrow> string"
  model_validate :: "json \<Rightarrow> exn + json"

text \<open>
  The answer of a remote agent, as lines 241 to 248 read it: the root is an error response,
  a success response whose result is a message, or a success response whose result is a
  task. The last carries \<^verbatim>\<open>json.loads(root.model_dump_json(exclude_none=True))\<close>.
\<close>

datatype send_response = ErrorResponse | MessageResponse | TaskResponse json

text \<open>
  A value of \<^verbatim>\<open>remote_agent_connections\<close> (class \<^verbatim>\<open>RemoteAgentConnections\<close>): its truth
  value, and what its \<^verbatim>\<open>send_message\<close> does with a request (the request id and the
  validated parameters).
\<close>

record connection =
  usable :: bool
  respond :: "string \<times> json \<Rightarrow> exn + send_response"

text \<open>\<^verbatim>\<open>needle in hay\<close> on strings.\<close>

fun str_in :: "string \<Rightarrow> string \<Rightarrow> bool" where
  "str_in needle [] = (needle = [])"
| "str_in needle (c # hay) = (take (length needle) (c # hay) = needle \<or> str_in needle hay)"

text \<open>Lines 202 to 206: the first key that matches in part, in the order of the dict.\<close>

fun find_partial :: "(string \<Rightarrow> string) \<Rightarrow> string \<Rightarrow> string list \<Rightarrow> string option" where
  "find_partial lower agent_name [] = None"
| "find_partial lower agent_name (card_name # card_names) =
     (if str_in (lower agent_name) (lower card_name) \<or> str_in (lower card_name) (lower agent_name)
      then Some card_name
      else find_partial lower agent_name card_names)"

definition not_found :: "string \<Rightarrow> string list \<Rightarrow> string" where
  "not_found agent_name available_agents =
     ''Error: Agent '' @ [CHR 0x27] @ agent_name @ [CHR 0x27] @ '' not found. Available agents: ''
       @ str_join '', '' available_agents"

text \<open>Lines 199 to 210: the name the request goes to, or the error string returned.\<close>

definition resolve_agent :: "lib \<Rightarrow> (string \<times> connection) list \<Rightarrow> string \<Rightarrow> string + string" where
  "resolve_agent l conns agent_name =
     (if agent_name \<in> set (map fst conns) then Inr agent_name
      else (case find_partial (str_lower l) agent_name (map fst conns) of
              Some card_name \<Rightarrow> Inr card_name
            | None \<Rightarrow> Inl (not_found agent_name (map fst conns))))"

text \<open>Lines 223 to 231.\<close>

definition make_payload :: "string \<Rightarrow> string \<Rightarrow> json \<Rightarrow> json \<Rightarrow> json" where
  "make_payload task message_id task_id context_id =
     JObj [(''message'', JObj
       [(''role'', JStr ''user''),
        (''parts'', JArr [JObj [(''type'', JStr ''text''), (''text'', JStr task)]]),
        (''messageId'', JStr message_id),
        (''taskId'', task_id),
        (''contextId'', context_id)])]"

text \<open>Lines 234 to 237: the request is validated, then sent.\<close>

definition send_request :: "lib \<Rightarrow> connection \<Rightarrow> string \<Rightarrow> json \<Rightarrow> exn + send_response" where
  "send_request l client message_id payload =
     then_do (model_validate l payload) (\<lambda>params. respond client (message_id, params))"

text \<open>Lines 241 to 305.\<close>

definition invalid_response :: "string \<Rightarrow> string" where
  "invalid_response agent_name = ''Error: Invalid response from agent '' @ agent_name"

fun read_response :: "lib \<Rightarrow> string \<Rightarrow> send_response \<Rightarrow> exn + string" where
  "read_response l agent_name (TaskResponse json_content) = extract_text (json_dumps l) json_content"
| "read_response l agent_name _ = Inr (invalid_response agent_name)"

text \<open>Lines 233 to 310: the \<^verbatim>\<open>try\<close> statement with its handler.\<close>

definition communication_error :: "lib \<Rightarrow> string \<Rightarrow> exn \<Rightarrow> string" where
  "communication_error l agent_name e =
     ''Error communicating with '' @ agent_name @ '': '' @ exn_str l e"

definition delegate :: "lib \<Rightarrow> connection \<Rightarrow> string \<Rightarrow> string \<Rightarrow> json \<Rightarrow> string" where
  "delegate l client agent_name message_id payload =
     (case then_do (send_request l client message_id payload) (read_response l agent_name) of
        Inl e \<Rightarrow> communication_error l agent_name e
      | Inr returned \<Rightarrow> returned)"

text \<open>
  What a call leaves behind: the string returned, the request the connection was called
  with (under which key of the directory; \<open>None\<close> when no connection was called), the number
  of identifiers drawn so far and the state of the tool context.
\<close>

record outcome =
  reply :: string
  called :: "(string \<times> string \<times> json) option"
  drawn :: nat
  state_after :: "(string \<times> json) list"

definition send_message ::
  "lib \<Rightarrow> (string \<times> connection) list \<Rightarrow> (string \<times> json) list \<Rightarrow> nat \<Rightarrow> string \<Rightarrow> string
    \<Rightarrow> exn + outcome" where
  "send_message l conns state n agent_name task =
     (case resolve_agent l conns agent_name of
        Inl error \<Rightarrow> Inr \<lparr>reply = error, called = None, drawn = n, state_after = state\<rparr>
      | Inr name \<Rightarrow>
          (case map_of conns name of
             None \<Rightarrow> Inl KeyError
           | Some client \<Rightarrow>
               if \<not> usable client then
                 Inr \<lparr>reply = ''Error: Client not available for '' @ name, called = None,
                      drawn = n, state_after = state\<rparr>
               else
                 let task_id = dict_get state ''task_id'' (JStr (uuid4 l n));
                     context_id = dict_get state ''context_id'' (JStr (uuid4 l (n + 1)));
                     message_id = uuid4 l (n + 2);
                     payload = make_payload task message_id task_id context_id
                 in Inr \<lparr>reply = delegate l client name message_id payload,
                         called = (case model_validate l payload of
                                     Inl e \<Rightarrow> None
                                   | Inr params \<Rightarrow> Some (name, message_id, params)),
                         drawn = n + 3, state_after = state\<rparr>))"

section \<open>Verification (\<^verbatim>\<open>verify_response\<close>)\<close>

text \<open>
  The generation backend: whether \<^verbatim>\<open>get_verification_client\<close> raises, what
  \<^verbatim>\<open>generate_content\<close> gives for a prompt (an exception, or the \<^verbatim>\<open>text\<close> of the response,
  which may be \<^verbatim>\<open>None\<close>), and \<^verbatim>\<open>json.loads\<close>.
\<close>

record backend =
  client_error :: "exn option"
  generate_content :: "string \<Rightarrow> exn + string option"
  loads :: "string \<Rightarrow> exn + json"

definition try_except :: "exn + 'a \<Rightarrow> (exn \<Rightarrow> exn + 'a) \<Rightarrow> exn + 'a" where
  "try_except body handler = (case body of Inl e \<Rightarrow> handler e | Inr x \<Rightarrow> Inr x)"

text \<open>Lines 55 to 77.\<close>

definition verification_prompt :: "string \<Rightarrow> string \<Rightarrow> string \<Rightarrow> string" where
  \<open>verification_prompt original_query agent_response expected_topic =
     ''\<newline>You are a Response Verification Specialist. Analyze if this agent response is relevant and safe.\<newline>''
   @ ''\<newline>Expected topic: '' @ expected_topic
   @ ''\<newline>User's original query: "'' @ original_query @ ''"''
   @ ''\<newline>Agent's response: "'' @ agent_response @ ''"\<newline>''
   @ ''\<newline>Analyze and respond with a JSON object:\<newline>{\<newline>''
   @ ''    "is_relevant": true/false,\<newline>''
   @ ''    "is_safe": true/false,\<newline>''
   @ ''    "topic_match": true/false,\<newline>''
   @ ''    "risk_level": "none/low/medium/high",\<newline>''
   @ ''    "explanation": "Brief explanation",\<newline>''
   @ ''    "detected_issues": ["list", "of", "issues"] or []\<newline>}\<newline>''
   @ ''\<newline>Guidelines:\<newline>''
   @ ''- A response is relevant if it addresses the user's query about imports or invoices\<newline>''
   @ ''- A response is NOT safe if it contains: illegal activities, violence, personal data theft, fraud, etc.\<newline>''
   @ ''- Be strict about safety but reasonable about relevance\<newline>''
   @ ''- Respond ONLY with valid JSON, no additional text\<newline>''\<close>

definition emoji_alert :: string where
  "emoji_alert = [CHR 0xF0, CHR 0x9F, CHR 0x9A, CHR 0xA8]"

definition emoji_warning :: string where
  "emoji_warning = [CHR 0xE2, CHR 0x9A, CHR 0xA0, CHR 0xEF, CHR 0xB8, CHR 0x8F]"

definition emoji_ok :: string where
  "emoji_ok = [CHR 0xE2, CHR 0x9C, CHR 0x85]"

text \<open>
  Lines 93 to 107 on the decoded result. \<^verbatim>\<open>result[k] = v\<close> replaces the value of a key
  the dict has and appends the key otherwise.
\<close>

definition derived_status :: "(string \<times> json) list \<Rightarrow> string" where
  "derived_status result =
     (if truthy (dict_get result ''is_relevant'' JNull) \<and> truthy (dict_get result ''is_safe'' JNull)
      then ''relevant'' else ''security_risk'')"

definition emoji_of :: "(string \<times> json) list \<Rightarrow> string" where
  "emoji_of result =
     (if \<not> truthy (dict_get result ''is_safe'' JNull) then emoji_alert
      else if \<not> truthy (dict_get result ''is_relevant'' JNull) then emoji_warning
      else emoji_ok)"

definition success :: "json \<Rightarrow> json" where
  "success verification = JObj [(''status'', JStr ''success''), (''verification'', verification)]"

fun add_compatibility :: "json \<Rightarrow> exn + json" where
  "add_compatibility (JObj result) =
     (let r1 = AList.update ''security_alert''
                 (JBool (\<not> truthy (dict_get result ''is_safe'' (JBool True)))) result;
          r2 = AList.update ''status'' (JStr (derived_status r1)) r1;
          r3 = AList.update ''emoji'' (JStr (emoji_of r2)) r2
      in Inr (success (JObj r3)))"
| "add_compatibility _ = Inl AttributeError"

text \<open>Lines 52 to 107: the body of the \<^verbatim>\<open>try\<close> statement.\<close>

definition verify_body :: "backend \<Rightarrow> string \<Rightarrow> string \<Rightarrow> string \<Rightarrow> exn + json" where
  "verify_body b original_query agent_response expected_topic =
     (case client_error b of
        Some e \<Rightarrow> Inl e
      | None \<Rightarrow>
          then_do (generate_content b
                     (verification_prompt original_query agent_response expected_topic))
            (\<lambda>text.
          then_do (case text of None \<Rightarrow> Inl TypeError | Some s \<Rightarrow> loads b s)
            add_compatibility))"

text \<open>Lines 112 to 125: the verdict of the handler.\<close>

definition fail_open :: json where
  "fail_open = success (JObj
     [(''is_relevant'', JBool True),
      (''is_safe'', JBool True),
      (''topic_match'', JBool True),
      (''risk_level'', JStr ''none''),
      (''explanation'', JStr ''Verification system unavailable, proceeding with caution''),
      (''detected_issues'', JArr []),
      (''security_alert'', JBool False),
      (''status'', JStr ''relevant''),
      (''emoji'', JStr emoji_ok)])"

definition verify_response :: "backend \<Rightarrow> string \<Rightarrow> string \<Rightarrow> string \<Rightarrow> exn + json" where
  "verify_response b original_query agent_response expected_topic =
     try_except (verify_body b original_query agent_response expected_topic)
       (\<lambda>e. Inr fail_open)"

section \<open>Streaming (\<^verbatim>\<open>HostAgent.stream\<close>, lines 174 to 195)\<close>

text \<open>
  An event of the runner, as far as the loop reads it: \<^verbatim>\<open>is_final_response()\<close>, the
  content (or \<^verbatim>\<open>None\<close>), its parts (or \<^verbatim>\<open>None\<close>) and each part's text (or \<^verbatim>\<open>None\<close>).
\<close>

record part =
  part_text :: "string option"

record content =
  parts :: "part list option"

record event =
  is_final_response :: bool
  content :: "content option"

definition has_text :: "part \<Rightarrow> bool" where
  "has_text p = (case part_text p of None \<Rightarrow> False | Some s \<Rightarrow> s \<noteq> [])"

definition the_text :: "part \<Rightarrow> string" where
  "the_text p = (case part_text p of None \<Rightarrow> [] | Some s \<Rightarrow> s)"

text \<open>Lines 178 to 186.\<close>

definition final_text :: "event \<Rightarrow> string" where
  "final_text e =
     (case content e of
        None \<Rightarrow> []
      | Some c \<Rightarrow>
          (case parts c of
             None \<Rightarrow> []
           | Some [] \<Rightarrow> []
           | Some (p # ps) \<Rightarrow>
               if has_text p then str_join ''\<newline>'' (map the_text (filter has_text (p # ps)))
               else []))"

definition processing :: string where
  "processing = ''The orchestrator agent is processing your query...''"

definition stream_event :: "event \<Rightarrow> json" where
  "stream_event e =
     (if is_final_response e
      then JObj [(''is_task_complete'', JBool True), (''content'', JStr (final_text e))]
      else JObj [(''is_task_complete'', JBool False), (''updates'', JStr processing)])"

text \<open>The loop of line 174 over the events the runner yields.\<close>

definition stream :: "event list \<Rightarrow> json list" where
  "stream events = map stream_event events"

section \<open>Sample inputs\<close>

text \<open>Concrete backends, connections and directories, for the instances evaluated below.\<close>

definition backend_down :: backend where
  "backend_down = \<lparr>client_error = None,
                    generate_content = (\<lambda>prompt. Inl (Raised ''503 Service Unavailable'')),
                    loads = (\<lambda>s. Inl (Raised ''JSONDecodeError''))\<rparr>"

definition backend_garbled :: backend where
  "backend_garbled = \<lparr>client_error = None,
                       generate_content = (\<lambda>prompt. Inr (Some ''not json'')),
                       loads = (\<lambda>s. Inl (Raised ''JSONDecodeError''))\<rparr>"

definition backend_unsafe :: backend where
  "backend_unsafe = \<lparr>client_error = None,
      generate_content = (\<lambda>prompt. Inr (Some ''{...}'')),
      loads = (\<lambda>s. Inr (JObj [(''is_relevant'', JBool True), (''is_safe'', JBool False),
                                (''detected_issues'', JArr [JStr ''fraud''])]))\<rparr>"

definition lower_char :: "char \<Rightarrow> char" where
  "lower_char c =
     (case map_of (zip ''ABCDEFGHIJKLMNOPQRSTUVWXYZ'' ''abcdefghijklmnopqrstuvwxyz'') c of
        None \<Rightarrow> c
      | Some l \<Rightarrow> l)"

definition sample_lib :: lib where
  "sample_lib = \<lparr>str_lower = map lower_char,
                  json_dumps = (\<lambda>d. ''{}''),
                  exn_str = (\<lambda>e. case e of Raised msg \<Rightarrow> msg
                                   | AttributeError \<Rightarrow> ''AttributeError''
                                   | TypeError \<Rightarrow> ''TypeError''
                                   | KeyError \<Rightarrow> ''KeyError''),
                  uuid4 = (\<lambda>n. ''u'' @ replicate n (CHR ''x'')),
                  model_validate = Inr\<rparr>"

definition answering :: "string \<Rightarrow> connection" where
  "answering answer =
     \<lparr>usable = True,
      respond = (\<lambda>request. Inr (TaskResponse (JObj [(''result'', JObj
        [(''artifacts'', JArr [JObj [(''parts'', JArr [JObj [(''text'', JStr answer)]])]])])])))\<rparr>"

definition unreachable :: connection where
  "unreachable = \<lparr>usable = True,
                   respond = (\<lambda>request. Inl (Raised ''All connection attempts failed''))\<rparr>"

definition refusing :: connection where
  "refusing = \<lparr>usable = True, respond = (\<lambda>request. Inr ErrorResponse)\<rparr>"

definition sample_directory :: "(string \<times> connection) list" where
  "sample_directory =
     [(''Imports_Agent'', answering ''You need a certificate of origin.''),
      (''Invoices_Agent'', answering ''Invoice 42 is paid.'')]"

definition overlapping_directory :: "(string \<times> connection) list" where
  "overlapping_directory =
     [(''Invoices_Agent_v2'', refusing), (''Invoices_Agent'', answering ''Invoice 42 is paid.'')]"

definition failing_directory :: "(string \<times> connection) list" where
  "failing_directory = [(''Imports_Agent'', refusing), (''Invoices_Agent'', unreachable)]"

text \<open>
  Responses: the example of the specification; one with a fragment on every path; one with
  an empty text between two others; one with no text at all. Then the events of a run.
\<close>

definition response_ab :: json where
  "response_ab = JObj [(''result'', JObj
     [(''artifacts'', JArr [JObj [(''parts'', JArr [JObj [(''text'', JStr ''A'')]])]]),
      (''text'', JStr ''B'')])]"

definition response_all_paths :: json where
  "response_all_paths = JObj [(''id'', JStr ''1''), (''result'', JObj
     [(''artifacts'', JArr
         [JObj [(''parts'', JArr [JObj [(''kind'', JStr ''text''), (''text'', JStr ''A'')],
                                  JObj [(''kind'', JStr ''data''), (''data'', JObj [(''n'', JInt 1)])],
                                  JStr ''S'']),
                (''name'', JStr ''first'')],
          JObj [(''parts'', JArr [JObj [(''text'', JStr ''B'')]])]]),
      (''text'', JStr ''C''),
      (''messages'', JArr [JObj [(''text'', JStr ''D'')], JObj [(''role'', JStr ''agent'')]]),
      (''status'', JObj [(''state'', JStr ''completed''),
                         (''message'', JObj [(''parts'', JArr [JObj [(''text'', JStr ''E'')]])])])])]"

definition response_empty_text :: json where
  "response_empty_text = JObj [(''result'', JObj
     [(''artifacts'', JArr [JObj [(''parts'', JArr
         [JObj [(''kind'', JStr ''text''), (''text'', JStr ''A'')],
          JObj [(''kind'', JStr ''text''), (''text'', JStr [])],
          JObj [(''kind'', JStr ''text''), (''text'', JStr ''B'')]])]]),
      (''status'', JObj [(''state'', JStr ''completed'')])])]"

definition response_no_text :: json where
  "response_no_text = JObj [(''id'', JStr ''1''), (''result'', JObj
     [(''id'', JStr ''t1''), (''status'', JObj [(''state'', JStr ''completed'')])])]"

definition events_example :: "event list" where
  "events_example =
     [\<lparr>is_final_response = False, content = None\<rparr>,
      \<lparr>is_final_response = True,
       content = Some \<lparr>parts = Some [\<lparr>part_text = None\<rparr>, \<lparr>part_text = Some ''late''\<rparr>]\<rparr>\<rparr>]"

section \<open>Properties of the extraction\<close>

subsection \<open>What each loop collects\<close>

lemma strs_of_app:
  "strs_of (xs @ ys) =
     (case strs_of xs of None \<Rightarrow> None
      | Some sa \<Rightarrow> (case strs_of ys of None \<Rightarrow> None | Some sb \<Rightarrow> Some (sa @ sb)))"
  by (induction xs rule: strs_of.induct) (simp_all split: option.splits)

lemma strs_of_Nil: "strs_of xs = Some [] \<longleftrightarrow> xs = []"
  by (cases xs rule: strs_of.cases) (auto split: option.splits)

lemma add_strs_None: "add_strs ok new None = None"
  by (simp add: add_strs_def)

lemma add_strs_twice:
  "add_strs ok2 new2 (add_strs ok1 new1 acc) = add_strs (ok1 \<and> ok2) (new1 @ new2) acc"
  by (cases acc) (auto simp: add_strs_def)

lemma add_strs_nothing: "add_strs True [] acc = acc"
  by (cases acc) (simp_all add: add_strs_def)

lemma collected_Inr: "collected (Inr texts) = strs_of texts"
  by (simp add: collected_def)

lemma collected_Inl: "collected (Inl e) = None"
  by (simp add: collected_def)

lemma collected_then_do:
  assumes "\<And>texts. collected (f texts) = add_strs ok new (strs_of texts)"
  shows "collected (then_do m f) = add_strs ok new (collected m)"
  by (cases m) (simp_all add: then_do_def assms collected_Inr collected_Inl add_strs_None)

lemma text_of_str: "text_of (JStr s) = (if s = [] then [] else [s])"
  by (simp add: text_of_def)

lemma text_of_falsy: "\<not> truthy v \<Longrightarrow> text_of v = []"
  by (cases v) (simp_all add: text_of_def)

lemma text_ok_falsy: "\<not> truthy v \<Longrightarrow> text_ok v"
  by (cases v) (simp_all add: text_ok_def)

lemma append_text:
  "truthy v \<Longrightarrow> strs_of (texts @ [v]) = add_strs (text_ok v) (text_of v) (strs_of texts)"
  by (cases v) (auto simp: strs_of_app add_strs_def text_ok_def text_of_def split: option.splits)

lemma skip_text:
  "\<not> truthy v \<Longrightarrow> strs_of texts = add_strs (text_ok v) (text_of v) (strs_of texts)"
  by (simp add: text_of_falsy text_ok_falsy add_strs_nothing)

lemma collected_scan_part:
  "collected (scan_part dumps p texts)
     = add_strs (part_ok p) (part_fragments dumps p) (strs_of texts)"
proof (cases p)
  case (JObj part)
  show ?thesis
  proof (cases "truthy (dict_get part ''text'' JNull)")
    case True
    show ?thesis
    proof (cases "dict_get part ''text'' JNull")
      case (JStr s)
      with True JObj show ?thesis
        by (auto simp: collected_def strs_of_app add_strs_def text_ok_def text_of_def field_def
            split: option.splits)
    next
      case (JArr xs)
      with True JObj show ?thesis
        by (auto simp: collected_def strs_of_app add_strs_def text_ok_def split: option.splits)
    qed (use True JObj in \<open>auto simp: collected_def add_strs_def text_ok_def split: option.splits\<close>)
  next
    case False
    then have "text_of (dict_get part ''text'' JNull) = []" "text_ok (dict_get part ''text'' JNull)"
      by (simp_all add: text_of_falsy text_ok_falsy)
    with False JObj show ?thesis
      by (auto simp: collected_def strs_of_app add_strs_def field_def split: option.splits)
  qed
next
  case (JStr s)
  then show ?thesis
    by (auto simp: collected_def strs_of_app add_strs_def split: option.splits)
qed (simp_all add: collected_def add_strs_nothing)

lemma collected_scan_parts:
  "collected (scan_parts dumps ps texts)
     = add_strs (list_all part_ok ps) (concat (map (part_fragments dumps) ps)) (strs_of texts)"
proof (induction ps arbitrary: texts)
  case Nil
  show ?case by (simp add: collected_def add_strs_nothing)
next
  case (Cons p ps)
  have "collected (scan_parts dumps (p # ps) texts)
          = add_strs (list_all part_ok ps) (concat (map (part_fragments dumps) ps))
              (collected (scan_part dumps p texts))"
    by (simp add: collected_then_do[where f = "scan_parts dumps ps", OF Cons.IH])
  then show ?case by (simp add: collected_scan_part add_strs_twice)
qed

lemma items_iter: "py_iter v = Inr xs \<Longrightarrow> items v = xs"
  by (simp add: items_def)

lemma items_falsy: "\<not> truthy v \<Longrightarrow> items v = []"
  by (cases v) (simp_all add: items_def)

lemma collected_iter:
  assumes "\<And>xs. collected (f xs) = add_strs (list_all ok xs) (concat (map fr xs)) (strs_of texts)"
  shows "collected (if truthy v then then_do (py_iter v) f else Inr texts)
           = add_strs (iter_ok ok v) (concat (map fr (items v))) (strs_of texts)"
proof (cases "truthy v")
  case True
  show ?thesis
  proof (cases "py_iter v")
    case (Inl e)
    with True show ?thesis
      by (cases "strs_of texts") (simp_all add: then_do_def collected_def iter_ok_def add_strs_def)
  next
    case (Inr xs)
    with True assms[of xs] show ?thesis
      by (simp add: then_do_def iter_ok_def items_iter)
  qed
next
  case False
  then show ?thesis
    by (simp add: iter_ok_def items_falsy collected_def add_strs_nothing)
qed

lemma collected_scan_artifact:
  "collected (scan_artifact dumps a texts)
     = add_strs (artifact_ok a) (artifact_fragments dumps a) (strs_of texts)"
proof (cases a)
  case (JObj artifact)
  have "collected (scan_artifact dumps (JObj artifact) texts)
          = add_strs (iter_ok part_ok (dict_get artifact ''parts'' JNull))
              (concat (map (part_fragments dumps) (items (dict_get artifact ''parts'' JNull))))
              (strs_of texts)"
    using collected_iter[where f = "\<lambda>ps. scan_parts dumps ps texts" and ok = part_ok
        and fr = "part_fragments dumps" and texts = texts
        and v = "dict_get artifact ''parts'' JNull"]
    by (simp add: collected_scan_parts)
  with JObj show ?thesis by (simp add: artifact_fragments_def field_def)
qed (cases "strs_of texts"; simp add: collected_def add_strs_def)+

lemma collected_scan_artifacts:
  "collected (scan_artifacts dumps as texts)
     = add_strs (list_all artifact_ok as) (concat (map (artifact_fragments dumps) as)) (strs_of texts)"
proof (induction as arbitrary: texts)
  case Nil
  show ?case by (simp add: collected_def add_strs_nothing)
next
  case (Cons a as)
  have "collected (scan_artifacts dumps (a # as) texts)
          = add_strs (list_all artifact_ok as) (concat (map (artifact_fragments dumps) as))
              (collected (scan_artifact dumps a texts))"
    by (simp add: collected_then_do[where f = "scan_artifacts dumps as", OF Cons.IH])
  then show ?case by (simp add: collected_scan_artifact add_strs_twice)
qed

lemma strs_of_scan_text_item:
  "strs_of (scan_text_item x texts) = add_strs (part_ok x) (item_fragments x) (strs_of texts)"
proof (cases x)
  case (JObj msg)
  then show ?thesis
    using append_text[of "dict_get msg ''text'' JNull" texts]
      skip_text[of "dict_get msg ''text'' JNull" texts]
    by (simp add: item_fragments_def field_def)
qed (simp_all add: item_fragments_def field_def text_of_def add_strs_nothing)

lemma strs_of_scan_text_items:
  "strs_of (scan_text_items xs texts)
     = add_strs (list_all part_ok xs) (concat (map item_fragments xs)) (strs_of texts)"
proof (induction xs arbitrary: texts)
  case Nil
  show ?case by (simp add: add_strs_nothing)
next
  case (Cons x xs)
  show ?case by (simp add: Cons.IH strs_of_scan_text_item add_strs_twice)
qed

lemma collected_scan_result_artifacts:
  "collected (scan_result_artifacts dumps (JObj d))
     = add_strs (iter_ok artifact_ok (dict_get d ''artifacts'' JNull))
         (concat (map (artifact_fragments dumps) (items (dict_get d ''artifacts'' JNull))))
         (Some [])"
  using collected_iter[where f = "\<lambda>as. scan_artifacts dumps as []" and ok = artifact_ok
      and fr = "artifact_fragments dumps" and texts = "[]"
      and v = "dict_get d ''artifacts'' JNull"]
  by (simp add: scan_result_artifacts_def then_do_def collected_scan_artifacts)

lemma collected_scan_result_text:
  "collected (scan_result_text (JObj d) texts)
     = add_strs (text_ok (dict_get d ''text'' JNull)) (text_of (dict_get d ''text'' JNull))
         (strs_of texts)"
  using append_text[of "dict_get d ''text'' JNull" texts]
    skip_text[of "dict_get d ''text'' JNull" texts]
  by (simp add: scan_result_text_def then_do_def collected_def)

lemma collected_scan_result_messages:
  "collected (scan_result_messages (JObj d) texts)
     = add_strs (iter_ok part_ok (dict_get d ''messages'' JNull))
         (concat (map item_fragments (items (dict_get d ''messages'' JNull))))
         (strs_of texts)"
  using collected_iter[where f = "\<lambda>msgs. Inr (scan_text_items msgs texts)" and ok = part_ok
      and fr = item_fragments and texts = texts and v = "dict_get d ''messages'' JNull"]
  by (simp add: scan_result_messages_def then_do_def collected_Inr strs_of_scan_text_items)

lemma collected_scan_result_status:
  "collected (scan_result_status (JObj d) texts)
     = add_strs (status_ok d)
         (concat (map item_fragments
            (items (field (field (field (JObj d) ''status'') ''message'') ''parts''))))
         (strs_of texts)"
proof (cases "dict_get d ''status'' (JObj [])")
  case (JObj st)
  have f1: "field (JObj d) ''status'' = JObj st \<or> (field (JObj d) ''status'' = JNull \<and> st = [])"
    using JObj by (auto simp: field_def dict_get_def split: option.splits)
  show ?thesis
  proof (cases "dict_get st ''message'' (JObj [])")
    case m: (JObj m)
    have f2: "field (field (JObj d) ''status'') ''message'' = JObj m
              \<or> (field (field (JObj d) ''status'') ''message'' = JNull \<and> m = [])"
      using f1 m by (auto simp: field_def dict_get_def split: option.splits)
    have f3: "field (field (field (JObj d) ''status'') ''message'') ''parts''
                = dict_get m ''parts'' JNull"
      using f2 by (auto simp: field_def dict_get_def)
    have "collected (scan_result_status (JObj d) texts)
            = add_strs (iter_ok part_ok (dict_get m ''parts'' JNull))
                (concat (map item_fragments (items (dict_get m ''parts'' JNull))))
                (strs_of texts)"
      using collected_iter[where f = "\<lambda>ps. Inr (scan_text_items ps texts)" and ok = part_ok
          and fr = item_fragments and texts = texts and v = "dict_get m ''parts'' JNull"]
        JObj m
      by (simp add: scan_result_status_def then_do_def collected_Inr strs_of_scan_text_items)
    with JObj m f3 show ?thesis by (simp add: status_ok_def)
  qed (use JObj in \<open>cases "strs_of texts";
        simp add: scan_result_status_def then_do_def collected_def status_ok_def add_strs_def\<close>)+
qed (cases "strs_of texts";
     simp add: scan_result_status_def then_do_def collected_def status_ok_def add_strs_def)+

lemma collected_result:
  "collected (then_do (scan_result_artifacts dumps (JObj d)) (\<lambda>texts1.
              then_do (scan_result_text (JObj d) texts1) (\<lambda>texts2.
              then_do (scan_result_messages (JObj d) texts2) (\<lambda>texts3.
                scan_result_status (JObj d) texts3))))
     = (if result_ok (JObj d)
        then Some (concat (map (artifact_fragments dumps) (items (field (JObj d) ''artifacts'')))
                   @ text_of (field (JObj d) ''text'')
                   @ concat (map item_fragments (items (field (JObj d) ''messages'')))
                   @ concat (map item_fragments
                       (items (field (field (field (JObj d) ''status'') ''message'') ''parts''))))
        else None)"
proof -
  let ?st = "\<lambda>texts3. scan_result_status (JObj d) texts3"
  let ?ms = "\<lambda>texts2. then_do (scan_result_messages (JObj d) texts2) ?st"
  let ?tx = "\<lambda>texts1. then_do (scan_result_text (JObj d) texts1) ?ms"
  have ms: "collected (?ms texts) =
      add_strs (iter_ok part_ok (dict_get d ''messages'' JNull) \<and> status_ok d)
        (concat (map item_fragments (items (dict_get d ''messages'' JNull)))
         @ concat (map item_fragments
            (items (field (field (field (JObj d) ''status'') ''message'') ''parts''))))
        (strs_of texts)" for texts
    by (simp add: collected_then_do[where f = ?st, OF collected_scan_result_status]
        collected_scan_result_messages add_strs_twice)
  have tx: "collected (?tx texts) =
      add_strs (text_ok (dict_get d ''text'' JNull)
              \<and> iter_ok part_ok (dict_get d ''messages'' JNull) \<and> status_ok d)
        (text_of (dict_get d ''text'' JNull)
         @ concat (map item_fragments (items (dict_get d ''messages'' JNull)))
         @ concat (map item_fragments
            (items (field (field (field (JObj d) ''status'') ''message'') ''parts''))))
        (strs_of texts)" for texts
    by (simp add: collected_then_do[where f = ?ms, OF ms]
        collected_scan_result_text add_strs_twice)
  show ?thesis
    by (simp add: collected_then_do[where f = ?tx, OF tx] collected_scan_result_artifacts
        add_strs_twice)
       (auto simp: add_strs_def field_def)
qed

lemma collected_collect_texts:
  "collected (collect_texts dumps response)
     = (if well_formed response then Some (spec_fragments dumps response) else None)"
proof (cases response)
  case (JObj top)
  show ?thesis
  proof (cases "dict_get top ''result'' (JObj [])")
    case r: (JObj d)
    have fr: "field (field (JObj top) ''result'') k = field (JObj d) k" for k
      using r by (auto simp: field_def dict_get_def split: option.splits)
    from JObj r collected_result[of dumps d] show ?thesis
      by (simp add: collect_texts_def then_do_def spec_fragments_def fr)
  qed (use JObj in \<open>simp_all add: collect_texts_def scan_result_artifacts_def then_do_def collected_def\<close>)
qed (simp_all add: collect_texts_def then_do_def collected_def)

lemma extract_text_iff:
  "extract_text dumps response = Inr s \<longleftrightarrow>
     well_formed response
     \<and> s = (if spec_fragments dumps response = [] then no_response
            else str_join ''\<newline>'' (spec_fragments dumps response))"
proof (cases "collect_texts dumps response")
  case (Inl e)
  with collected_collect_texts[of dumps response] show ?thesis
    by (auto simp: extract_text_def then_do_def collected_def split: if_splits)
next
  case (Inr texts)
  with collected_collect_texts[of dumps response]
  have c: "strs_of texts = (if well_formed response then Some (spec_fragments dumps response) else None)"
    by (simp add: collected_def)
  show ?thesis
  proof (cases "well_formed response")
    case True
    with c have s: "strs_of texts = Some (spec_fragments dumps response)" by simp
    then have "texts = [] \<longleftrightarrow> spec_fragments dumps response = []"
      using strs_of_Nil[of texts] by auto
    with Inr True s show ?thesis
      by (auto simp: extract_text_def then_do_def response_text_def py_join_def)
  next
    case False
    with c have n: "strs_of texts = None" by simp
    then have "texts \<noteq> []" by auto
    with Inr False n show ?thesis
      by (simp add: extract_text_def then_do_def response_text_def py_join_def)
  qed
qed


lemmas extraction_defs =
  extract_text_def collect_texts_def scan_result_artifacts_def scan_result_text_def
  scan_result_messages_def scan_result_status_def response_text_def py_join_def then_do_def
  dict_get_def no_response_def data_label_def

lemmas fragment_defs =
  spec_fragments_def artifact_fragments_def item_fragments_def field_def items_def text_of_def
  dict_get_def data_label_def

lemmas shape_defs = iter_ok_def status_ok_def text_ok_def dict_get_def

subsection \<open>The text extracted\<close>

text \<open>
  C4, as amended: the extraction returns a text exactly on the responses of the shape
  \<open>well_formed\<close> (on every other response it raises, which \<^verbatim>\<open>send_message\<close> reports as an
  error string), and the text is the fragments joined by newlines, a field counting only
  when its value is true for Python, in the order of the specification: for each artifact
  and each of its parts the non-empty text, else the non-empty data, pretty-printed after
  the label, else the non-empty text of a part of kind \<^verbatim>\<open>text\<close> (a plain string as it is);
  then \<^verbatim>\<open>result.text\<close>; then the text of each message; then the text of each part of
  \<^verbatim>\<open>result.status.message\<close>. With no fragment at all the text is the sentinel.
\<close>

theorem extract_text_joins_fragments:
  "extract_text dumps response = Inr s \<longleftrightarrow>
     well_formed response
     \<and> s = (if spec_fragments dumps response = [] then ''No response from agent''
            else str_join ''\<newline>'' (spec_fragments dumps response))"
  using extract_text_iff[of dumps response s] by (simp add: no_response_def)

text \<open>
  The example of the specification gives \<^verbatim>\<open>A\<close>, a newline, \<^verbatim>\<open>B\<close>; a response with a fragment
  on each of the four paths gives them all, in order.
\<close>

theorem extract_text_joins_fragments_witness:
  "well_formed response_ab
   \<and> spec_fragments (\<lambda>v. ''{}'') response_ab = [''A'', ''B'']
   \<and> extract_text (\<lambda>v. ''{}'') response_ab = Inr ''A\<newline>B''
   \<and> well_formed response_all_paths
   \<and> spec_fragments (\<lambda>v. ''{}'') response_all_paths
       = [''A'', ''Extracted data:\<newline>{}'', ''S'', ''B'', ''C'', ''D'', ''E'']
   \<and> extract_text (\<lambda>v. ''{}'') response_all_paths
       = Inr ''A\<newline>Extracted data:\<newline>{}\<newline>S\<newline>B\<newline>C\<newline>D\<newline>E''"
proof -
  have w1: "well_formed response_ab"
    by (simp add: response_ab_def shape_defs)
  have f1: "spec_fragments (\<lambda>v. ''{}'') response_ab = [''A'', ''B'']"
    by (simp add: response_ab_def fragment_defs)
  have w2: "well_formed response_all_paths"
    by (simp add: response_all_paths_def shape_defs)
  have f2: "spec_fragments (\<lambda>v. ''{}'') response_all_paths
       = [''A'', ''Extracted data:\<newline>{}'', ''S'', ''B'', ''C'', ''D'', ''E'']"
    by (simp add: response_all_paths_def fragment_defs)
  from extract_text_joins_fragments[of "\<lambda>v. ''{}''" response_ab "''A\<newline>B''"]
    extract_text_joins_fragments[of "\<lambda>v. ''{}''" response_all_paths
      "''A\<newline>Extracted data:\<newline>{}\<newline>S\<newline>B\<newline>C\<newline>D\<newline>E''"]
    w1 f1 w2 f2
  show ?thesis by simp
qed

text \<open>
  Read with ``present'' for ``non-empty'', the list of the specification is not what the
  code joins: an empty text that is present is skipped by the code, and a response with no
  fragment gives the sentinel, not the empty join.
\<close>

theorem empty_text_is_skipped:
  "listed_fragments (\<lambda>v. ''{}'') response_empty_text = [''A'', [], ''B'']
   \<and> extract_text (\<lambda>v. ''{}'') response_empty_text = Inr ''A\<newline>B''
   \<and> extract_text (\<lambda>v. ''{}'') response_empty_text
       \<noteq> Inr (str_join ''\<newline>'' (listed_fragments (\<lambda>v. ''{}'') response_empty_text))
   \<and> listed_fragments (\<lambda>v. ''{}'') response_no_text = []
   \<and> extract_text (\<lambda>v. ''{}'') response_no_text
       \<noteq> Inr (str_join ''\<newline>'' (listed_fragments (\<lambda>v. ''{}'') response_no_text))"
proof -
  have l1: "listed_fragments (\<lambda>v. ''{}'') response_empty_text = [''A'', [], ''B'']"
    by (simp add: response_empty_text_def listed_fragments_def present_text_def field_def
        items_def dict_get_def)
  have e1: "extract_text (\<lambda>v. ''{}'') response_empty_text = Inr ''A\<newline>B''"
    by (simp add: response_empty_text_def extraction_defs)
  have l2: "listed_fragments (\<lambda>v. ''{}'') response_no_text = []"
    by (simp add: response_no_text_def listed_fragments_def present_text_def field_def
        items_def dict_get_def)
  have e2: "extract_text (\<lambda>v. ''{}'') response_no_text = Inr ''No response from agent''"
    by (simp add: response_no_text_def extraction_defs)
  show ?thesis by (simp add: l1 e1 l2 e2)
qed

subsection \<open>The sentinel\<close>

lemma part_fragments_empty:
  "[] \<in> set (part_fragments dumps p) \<Longrightarrow> p = JStr []"
  by (cases p) (auto simp: text_of_def data_label_def split: if_splits json.splits)

lemma spec_fragments_empty:
  assumes "[] \<in> set (spec_fragments dumps response)"
  shows "JStr [] \<in> set (artifact_parts response)"
proof -
  have t: "[] \<notin> set (text_of v)" for v
    by (cases v) (simp_all add: text_of_def)
  from assms t obtain a p where
    "a \<in> set (items (field (field response ''result'') ''artifacts''))"
    "p \<in> set (items (field a ''parts''))" "[] \<in> set (part_fragments dumps p)"
    by (auto simp: spec_fragments_def artifact_fragments_def item_fragments_def)
  then show ?thesis
    by (auto simp: artifact_parts_def dest: part_fragments_empty)
qed

lemma str_join_not_empty:
  "xs \<noteq> [] \<Longrightarrow> [] \<notin> set xs \<Longrightarrow> str_join sep xs \<noteq> []"
  by (induction sep xs rule: str_join.induct) auto

text \<open>
  C3, as amended. A raw agent response is a response of the shape \<open>well_formed\<close>, as
  the dump of a validated task is. When no text fragment is found at any of the four paths
  (the artifacts' parts, \<^verbatim>\<open>result.text\<close>, the messages, the parts of the status message), the
  extraction returns the sentinel \<^verbatim>\<open>No response from agent\<close>, written with a capital N. And
  the text extracted is never empty, as long as no part of an artifact is the plain empty
  string (the parts of a validated task are dicts).
\<close>

theorem no_fragment_gives_sentinel:
  assumes "well_formed response"
  shows "(spec_fragments dumps response = []
            \<longrightarrow> extract_text dumps response = Inr ''No response from agent'')
         \<and> (JStr [] \<notin> set (artifact_parts response)
            \<longrightarrow> (\<exists>s. extract_text dumps response = Inr s \<and> s \<noteq> []))"
proof -
  let ?frags = "spec_fragments dumps response"
  have e: "extract_text dumps response
             = Inr (if ?frags = [] then no_response else str_join ''\<newline>'' ?frags)"
    using assms extract_text_iff[of dumps response] by simp
  have "(if ?frags = [] then no_response else str_join ''\<newline>'' ?frags) \<noteq> []"
    if "JStr [] \<notin> set (artifact_parts response)"
  proof (cases "?frags = []")
    case True
    then show ?thesis by (simp add: no_response_def)
  next
    case False
    from that spec_fragments_empty[of dumps response] have "[] \<notin> set ?frags" by blast
    with False show ?thesis by (simp add: str_join_not_empty)
  qed
  with e show ?thesis by (simp add: no_response_def)
qed

theorem no_fragment_gives_sentinel_witness:
  "well_formed response_no_text
   \<and> spec_fragments (\<lambda>v. ''{}'') response_no_text = []
   \<and> extract_text (\<lambda>v. ''{}'') response_no_text = Inr ''No response from agent''
   \<and> well_formed response_all_paths
   \<and> JStr [] \<notin> set (artifact_parts response_all_paths)
   \<and> (\<exists>s. extract_text (\<lambda>v. ''{}'') response_all_paths = Inr s \<and> s \<noteq> [])"
proof -
  have w1: "well_formed response_no_text"
    by (simp add: response_no_text_def shape_defs)
  have f1: "spec_fragments (\<lambda>v. ''{}'') response_no_text = []"
    by (simp add: response_no_text_def fragment_defs)
  have w2: "well_formed response_all_paths"
    by (simp add: response_all_paths_def shape_defs)
  have p2: "JStr [] \<notin> set (artifact_parts response_all_paths)"
    by (simp add: response_all_paths_def artifact_parts_def field_def items_def dict_get_def)
  from no_fragment_gives_sentinel[OF w1, of "\<lambda>v. ''{}''"]
    no_fragment_gives_sentinel[OF w2, of "\<lambda>v. ''{}''"] w1 f1 w2 p2
  show ?thesis by simp
qed

text \<open>
  The string of the claim, all in lower case, is not what the code returns on a response
  of a task without any text.
\<close>

theorem sentinel_is_capitalised:
  "well_formed response_no_text
   \<and> spec_fragments (\<lambda>v. ''{}'') response_no_text = []
   \<and> extract_text (\<lambda>v. ''{}'') response_no_text \<noteq> Inr ''no response from agent''"
  by (simp add: response_no_text_def shape_defs fragment_defs extraction_defs)

subsection \<open>The branch on \<^verbatim>\<open>kind\<close>\<close>

lemma scan_part_no_kind_eq: "scan_part_no_kind dumps p texts = scan_part dumps p texts"
  by (cases p) simp_all

lemma scan_parts_no_kind_eq: "scan_parts_no_kind dumps ps texts = scan_parts dumps ps texts"
proof (induction ps arbitrary: texts)
  case Nil
  show ?case by simp
next
  case (Cons p ps)
  have "scan_parts_no_kind dumps ps = scan_parts dumps ps"
    using Cons.IH by (intro ext)
  then show ?case by (simp add: scan_part_no_kind_eq)
qed

lemma scan_artifact_no_kind_eq:
  "scan_artifact_no_kind dumps a texts = scan_artifact dumps a texts"
  by (cases a) (simp_all add: scan_parts_no_kind_eq)

lemma scan_artifacts_no_kind_eq:
  "scan_artifacts_no_kind dumps as texts = scan_artifacts dumps as texts"
proof (induction as arbitrary: texts)
  case Nil
  show ?case by simp
next
  case (Cons a as)
  have "scan_artifacts_no_kind dumps as = scan_artifacts dumps as"
    using Cons.IH by (intro ext)
  then show ?case by (simp add: scan_artifact_no_kind_eq)
qed

lemma scan_result_artifacts_no_kind_eq:
  "scan_result_artifacts_no_kind dumps r = scan_result_artifacts dumps r"
  unfolding scan_result_artifacts_no_kind_def scan_result_artifacts_def
  by (simp add: scan_artifacts_no_kind_eq cong: if_cong)

lemma collect_texts_no_kind_eq: "collect_texts_no_kind dumps response = collect_texts dumps response"
  unfolding collect_texts_no_kind_def collect_texts_def
  by (simp add: scan_result_artifacts_no_kind_eq)

lemma dict_get_update_other:
  "k' \<noteq> k \<Longrightarrow> dict_get (AList.update k v d) k' dflt = dict_get d k' dflt"
  by (simp add: dict_get_def update_conv')

text \<open>
  C10: the extraction with the branch on \<^verbatim>\<open>kind\<close> removed equals the implemented one on
  every response (and for every pretty-printer), and what a part contributes does not change
  when its \<^verbatim>\<open>kind\<close> is set to any other value: the branch is never taken.
\<close>

theorem kind_branch_is_dead:
  "extract_text_no_kind dumps response = extract_text dumps response
   \<and> scan_part dumps (JObj (AList.update ''kind'' v d)) texts = scan_part dumps (JObj d) texts"
  by (simp add: extract_text_no_kind_def extract_text_def collect_texts_no_kind_eq
      dict_get_update_other)


section \<open>Properties of the verification\<close>

lemma verify_response_returns:
  "\<exists>v. verify_response b q a t = Inr v"
  by (simp add: verify_response_def try_except_def split: sum.splits)

lemma verify_response_fail_open:
  "verify_body b q a t = Inl e \<Longrightarrow> verify_response b q a t = Inr fail_open"
  by (simp add: verify_response_def try_except_def)

lemma generation_failure:
  "generate_content b (verification_prompt q a t) = Inl e \<Longrightarrow> \<exists>e'. verify_body b q a t = Inl e'"
  by (simp add: verify_body_def then_do_def split: option.splits)

lemma parsing_failure:
  "generate_content b (verification_prompt q a t) = Inr (Some s) \<Longrightarrow> loads b s = Inl e
   \<Longrightarrow> \<exists>e'. verify_body b q a t = Inl e'"
  by (simp add: verify_body_def then_do_def split: option.splits)

lemma fail_open_fields:
  "field (field fail_open ''verification'') ''is_relevant'' = JBool True"
  "field (field fail_open ''verification'') ''is_safe'' = JBool True"
  "field (field fail_open ''verification'') ''risk_level'' = JStr ''none''"
  "field (field fail_open ''verification'') ''status'' = JStr ''relevant''"
  "field (field fail_open ''verification'') ''explanation''
     = JStr ''Verification system unavailable, proceeding with caution''"
  by (simp_all add: fail_open_def success_def field_def dict_get_def)

text \<open>
  C1: \<^verbatim>\<open>verify_response\<close> always returns a value and never an exception. Whenever the body of
  its \<^verbatim>\<open>try\<close> statement raises, and so whenever the generation call raises or the decoding
  of its text raises, the value is the fail-open verdict, whose \<^verbatim>\<open>is_relevant\<close> and
  \<^verbatim>\<open>is_safe\<close> are true, whose \<^verbatim>\<open>risk_level\<close> is \<^verbatim>\<open>none\<close>, whose \<^verbatim>\<open>status\<close> is
  \<^verbatim>\<open>relevant\<close> and whose explanation says that the verification was unavailable.
\<close>

theorem verify_response_never_raises:
  "(\<exists>v. verify_response b q a t = Inr v)
   \<and> (\<forall>e. verify_body b q a t = Inl e \<longrightarrow> verify_response b q a t = Inr fail_open)
   \<and> (\<forall>e. generate_content b (verification_prompt q a t) = Inl e
          \<longrightarrow> verify_response b q a t = Inr fail_open)
   \<and> (\<forall>s e. generate_content b (verification_prompt q a t) = Inr (Some s) \<and> loads b s = Inl e
          \<longrightarrow> verify_response b q a t = Inr fail_open)
   \<and> field (field fail_open ''verification'') ''is_relevant'' = JBool True
   \<and> field (field fail_open ''verification'') ''is_safe'' = JBool True
   \<and> field (field fail_open ''verification'') ''risk_level'' = JStr ''none''
   \<and> field (field fail_open ''verification'') ''status'' = JStr ''relevant''
   \<and> field (field fail_open ''verification'') ''explanation''
         = JStr ''Verification system unavailable, proceeding with caution''"
proof -
  have g: "verify_response b q a t = Inr fail_open"
    if "generate_content b (verification_prompt q a t) = Inl e" for e
    using generation_failure[OF that] verify_response_fail_open by blast
  have p: "verify_response b q a t = Inr fail_open"
    if "generate_content b (verification_prompt q a t) = Inr (Some s)" "loads b s = Inl e" for s e
    using parsing_failure[OF that] verify_response_fail_open by blast
  show ?thesis
    using verify_response_returns[of b q a t] verify_response_fail_open[of b q a t] g p
    by (simp add: fail_open_fields)
qed

theorem verify_response_never_raises_witness:
  "generate_content backend_down (verification_prompt ''q'' ''a'' ''imports'')
     = Inl (Raised ''503 Service Unavailable'')
   \<and> verify_response backend_down ''q'' ''a'' ''imports'' = Inr fail_open
   \<and> generate_content backend_garbled (verification_prompt ''q'' ''a'' ''imports'')
     = Inr (Some ''not json'')
   \<and> loads backend_garbled ''not json'' = Inl (Raised ''JSONDecodeError'')
   \<and> verify_response backend_garbled ''q'' ''a'' ''imports'' = Inr fail_open"
  using verify_response_never_raises[of backend_down "''q''" "''a''" "''imports''"]
    verify_response_never_raises[of backend_garbled "''q''" "''a''" "''imports''"]
  by (simp add: backend_down_def backend_garbled_def)

lemma dict_get_update_same: "dict_get (AList.update k v d) k dflt = v"
  by (simp add: dict_get_def update_conv')

lemma add_compatibility_status:
  assumes "add_compatibility parsed = Inr v"
  shows "field (field v ''verification'') ''status''
           = JStr (if truthy (field (field v ''verification'') ''is_relevant'')
                      \<and> truthy (field (field v ''verification'') ''is_safe'')
                   then ''relevant'' else ''security_risk'')"
proof -
  from assms obtain d where d: "parsed = JObj d" by (cases parsed) simp_all
  define r1 where "r1 = AList.update ''security_alert''
                 (JBool (\<not> truthy (dict_get d ''is_safe'' (JBool True)))) d"
  define r2 where "r2 = AList.update ''status'' (JStr (derived_status r1)) r1"
  define r3 where "r3 = AList.update ''emoji'' (JStr (emoji_of r2)) r2"
  from assms d have v: "v = success (JObj r3)"
    by (simp add: Let_def r1_def r2_def r3_def)
  have rel: "dict_get r3 ''is_relevant'' JNull = dict_get r1 ''is_relevant'' JNull"
    by (simp add: r3_def r2_def dict_get_update_other)
  have safe: "dict_get r3 ''is_safe'' JNull = dict_get r1 ''is_safe'' JNull"
    by (simp add: r3_def r2_def dict_get_update_other)
  have st: "dict_get r3 ''status'' JNull = JStr (derived_status r1)"
    by (simp add: r3_def r2_def dict_get_update_other dict_get_update_same)
  have f: "field (field v ''verification'') k = dict_get r3 k JNull" for k
    by (simp add: v success_def field_def dict_get_def)
  show ?thesis unfolding f st rel safe by (simp add: derived_status_def)
qed

text \<open>
  C7: a verdict produced without falling back to the fail-open verdict (the body of the
  \<^verbatim>\<open>try\<close> statement returned it) is what \<^verbatim>\<open>verify_response\<close> returns, and its
  \<^verbatim>\<open>status\<close> is \<^verbatim>\<open>relevant\<close> when its \<^verbatim>\<open>is_relevant\<close> and its \<^verbatim>\<open>is_safe\<close> are both true (as
  Python tests a value), and \<^verbatim>\<open>security_risk\<close> in every other case.
\<close>

theorem status_relevant_iff_relevant_and_safe:
  assumes "verify_body b q a t = Inr v"
  shows "verify_response b q a t = Inr v
         \<and> field (field v ''verification'') ''status''
             = JStr (if truthy (field (field v ''verification'') ''is_relevant'')
                        \<and> truthy (field (field v ''verification'') ''is_safe'')
                     then ''relevant'' else ''security_risk'')
         \<and> (field (field v ''verification'') ''status'' = JStr ''relevant''
              \<longleftrightarrow> truthy (field (field v ''verification'') ''is_relevant'')
                  \<and> truthy (field (field v ''verification'') ''is_safe''))"
proof -
  from assms obtain parsed where "add_compatibility parsed = Inr v"
    by (auto simp: verify_body_def then_do_def split: option.splits sum.splits)
  from add_compatibility_status[OF this] assms show ?thesis
    by (simp add: verify_response_def try_except_def)
qed

theorem status_relevant_iff_relevant_and_safe_witness:
  "verify_body backend_unsafe ''q'' ''a'' ''invoices''
     = Inr (success (JObj [(''is_relevant'', JBool True), (''is_safe'', JBool False),
                           (''detected_issues'', JArr [JStr ''fraud'']),
                           (''security_alert'', JBool True),
                           (''status'', JStr ''security_risk''),
                           (''emoji'', JStr emoji_alert)]))
   \<and> verify_response backend_unsafe ''q'' ''a'' ''invoices''
     = Inr (success (JObj [(''is_relevant'', JBool True), (''is_safe'', JBool False),
                           (''detected_issues'', JArr [JStr ''fraud'']),
                           (''security_alert'', JBool True),
                           (''status'', JStr ''security_risk''),
                           (''emoji'', JStr emoji_alert)]))"
proof -
  have b: "verify_body backend_unsafe ''q'' ''a'' ''invoices''
     = Inr (success (JObj [(''is_relevant'', JBool True), (''is_safe'', JBool False),
                           (''detected_issues'', JArr [JStr ''fraud'']),
                           (''security_alert'', JBool True),
                           (''status'', JStr ''security_risk''),
                           (''emoji'', JStr emoji_alert)]))"
    by (simp add: verify_body_def backend_unsafe_def then_do_def dict_get_def
        derived_status_def emoji_of_def)
  from status_relevant_iff_relevant_and_safe[OF b] b show ?thesis by simp
qed


section \<open>Properties of the stream\<close>

lemma stream_append: "stream (xs @ ys) = stream xs @ stream ys"
  by (simp add: stream_def)

lemma stream_length: "length (stream events) = length events"
  by (simp add: stream_def)

text \<open>
  C9: \<^verbatim>\<open>stream\<close> emits one event for each event of the run, in order. For a final response
  whose content has parts, wherever it stands in the run, the event emitted has
  \<^verbatim>\<open>is_task_complete\<close> true, and its content is the empty string when the first part has no
  text, whatever the later parts hold, and the texts of all the parts that have one, joined
  by newlines, when the first part has a text.
\<close>

theorem final_content_depends_on_first_part:
  assumes "is_final_response e" "content e = Some c" "parts c = Some (p # ps)"
  shows "stream (earlier @ e # later) =
           stream earlier
           @ JObj [(''is_task_complete'', JBool True),
                   (''content'', JStr (if has_text p
                                       then str_join ''\<newline>'' (map the_text (filter has_text (p # ps)))
                                       else []))]
           # stream later
         \<and> length (stream (earlier @ e # later)) = Suc (length earlier + length later)"
  using assms by (simp add: stream_def stream_event_def final_text_def)

theorem final_content_depends_on_first_part_witness:
  "stream events_example
     = [JObj [(''is_task_complete'', JBool False),
              (''updates'', JStr ''The orchestrator agent is processing your query...'')],
        JObj [(''is_task_complete'', JBool True), (''content'', JStr [])]]
   \<and> stream [\<lparr>is_final_response = True,
               content = Some \<lparr>parts = Some [\<lparr>part_text = Some ''one''\<rparr>, \<lparr>part_text = Some []\<rparr>,
                                              \<lparr>part_text = None\<rparr>, \<lparr>part_text = Some ''two''\<rparr>]\<rparr>\<rparr>]
     = [JObj [(''is_task_complete'', JBool True), (''content'', JStr ''one\<newline>two'')]]"
proof -
  have s: "stream [\<lparr>is_final_response = False, content = None\<rparr>]
             = [JObj [(''is_task_complete'', JBool False),
                      (''updates'', JStr ''The orchestrator agent is processing your query...'')]]"
    by (simp add: stream_def stream_event_def processing_def)
  have n: "stream [] = []" by (simp add: stream_def)
  from final_content_depends_on_first_part[of
      "\<lparr>is_final_response = True,
        content = Some \<lparr>parts = Some [\<lparr>part_text = None\<rparr>, \<lparr>part_text = Some ''late''\<rparr>]\<rparr>\<rparr>"
      "\<lparr>parts = Some [\<lparr>part_text = None\<rparr>, \<lparr>part_text = Some ''late''\<rparr>]\<rparr>"
      "\<lparr>part_text = None\<rparr>" "[\<lparr>part_text = Some ''late''\<rparr>]"
      "[\<lparr>is_final_response = False, content = None\<rparr>]" "[]"]
    final_content_depends_on_first_part[of
      "\<lparr>is_final_response = True,
        content = Some \<lparr>parts = Some [\<lparr>part_text = Some ''one''\<rparr>, \<lparr>part_text = Some []\<rparr>,
                                       \<lparr>part_text = None\<rparr>, \<lparr>part_text = Some ''two''\<rparr>]\<rparr>\<rparr>"
      "\<lparr>parts = Some [\<lparr>part_text = Some ''one''\<rparr>, \<lparr>part_text = Some []\<rparr>,
                       \<lparr>part_text = None\<rparr>, \<lparr>part_text = Some ''two''\<rparr>]\<rparr>"
      "\<lparr>part_text = Some ''one''\<rparr>"
      "[\<lparr>part_text = Some []\<rparr>, \<lparr>part_text = None\<rparr>, \<lparr>part_text = Some ''two''\<rparr>]"
      "[]" "[]"]
  show ?thesis
    by (simp add: events_example_def s n has_text_def the_text_def)
qed

section \<open>Properties of the delegation\<close>

subsection \<open>Agent selection\<close>

lemma str_in_iff: "str_in needle hay \<longleftrightarrow> (\<exists>before after. hay = before @ needle @ after)"
proof (induction hay)
  case Nil
  show ?case by auto
next
  case (Cons c hay)
  note IH = Cons.IH
  have pre: "take (length needle) (c # hay) = needle \<longleftrightarrow> (\<exists>after. c # hay = needle @ after)"
    by (metis append_eq_conv_conj)
  show ?case
  proof
    assume "str_in needle (c # hay)"
    then consider "take (length needle) (c # hay) = needle" | "str_in needle hay" by auto
    then show "\<exists>before after. c # hay = before @ needle @ after"
    proof cases
      case 1
      with pre obtain after where "c # hay = [] @ needle @ after" by auto
      then show ?thesis by blast
    next
      case 2
      with IH obtain before after where "hay = before @ needle @ after" by blast
      then have "c # hay = (c # before) @ needle @ after" by simp
      then show ?thesis by blast
    qed
  next
    assume "\<exists>before after. c # hay = before @ needle @ after"
    then obtain before after where h: "c # hay = before @ needle @ after" by blast
    show "str_in needle (c # hay)"
    proof (cases "before = []")
      case True
      with h have "\<exists>after. c # hay = needle @ after" by auto
      with pre have "take (length needle) (c # hay) = needle" by blast
      then show ?thesis by simp
    next
      case False
      then obtain b bs where "before = b # bs" by (cases before) auto
      with h have "hay = bs @ needle @ after" by simp
      with IH have "str_in needle hay" by blast
      then show ?thesis by simp
    qed
  qed
qed

lemma find_partial_find:
  "find_partial lc agent_name card_names =
     List.find (\<lambda>card_name. str_in (lc agent_name) (lc card_name)
                           \<or> str_in (lc card_name) (lc agent_name)) card_names"
  by (induction card_names) simp_all

lemma find_partial_key: "find_partial lc agent_name card_names = Some k \<Longrightarrow> k \<in> set card_names"
  by (induction card_names) (auto split: if_splits)

lemma resolve_agent_key:
  "resolve_agent l conns agent_name = Inr name \<Longrightarrow> \<exists>client. map_of conns name = Some client"
proof -
  assume "resolve_agent l conns agent_name = Inr name"
  then have "name \<in> set (map fst conns)"
    by (auto simp: resolve_agent_def dest: find_partial_key split: if_splits option.splits)
  then show ?thesis by (metis image_set map_of_eq_None_iff not_None_eq)
qed

lemma send_message_returns: "\<exists>out. send_message l conns state n agent_name task = Inr out"
proof (cases "resolve_agent l conns agent_name")
  case (Inl error)
  then show ?thesis by (simp add: send_message_def)
next
  case (Inr name)
  from resolve_agent_key[OF Inr] obtain client where "map_of conns name = Some client" ..
  with Inr show ?thesis by (simp add: send_message_def Let_def)
qed


lemmas sample_defs =
  sample_lib_def sample_directory_def overlapping_directory_def failing_directory_def
  answering_def unreachable_def refusing_def lower_char_def

lemmas delegate_defs =
  delegate_def send_request_def then_do_def extract_text_def collect_texts_def
  scan_result_artifacts_def scan_result_text_def scan_result_messages_def
  scan_result_status_def response_text_def py_join_def dict_get_def make_payload_def
  communication_error_def invalid_response_def

text \<open>
  C5: a requested name that is a key of the directory, letter for letter, is resolved to
  itself, whatever the other keys are and whatever \<^verbatim>\<open>lower\<close> does: the loop over the keys is
  not entered. The call goes on with the connection stored under that key.
\<close>

theorem exact_name_is_resolved_first:
  assumes "map_of conns agent_name = Some client"
  shows "resolve_agent l conns agent_name = Inr agent_name
         \<and> (\<exists>out. send_message l conns state n agent_name task = Inr out
               \<and> reply out =
                  (if usable client
                   then delegate l client agent_name (uuid4 l (n + 2))
                          (make_payload task (uuid4 l (n + 2))
                             (dict_get state ''task_id'' (JStr (uuid4 l n)))
                             (dict_get state ''context_id'' (JStr (uuid4 l (n + 1)))))
                   else ''Error: Client not available for '' @ agent_name))"
proof -
  from assms have "agent_name \<in> set (map fst conns)"
    by (metis image_set map_of_eq_None_iff option.distinct(1))
  then have r: "resolve_agent l conns agent_name = Inr agent_name"
    by (simp add: resolve_agent_def)
  with assms show ?thesis by (simp add: send_message_def Let_def)
qed

theorem exact_name_is_resolved_first_witness:
  "map_of overlapping_directory ''Invoices_Agent'' = Some (answering ''Invoice 42 is paid.'')
   \<and> find_partial (str_lower sample_lib) ''Invoices_Agent'' (map fst overlapping_directory)
       = Some ''Invoices_Agent_v2''
   \<and> resolve_agent sample_lib overlapping_directory ''Invoices_Agent'' = Inr ''Invoices_Agent''
   \<and> (\<exists>out. send_message sample_lib overlapping_directory [] 0 ''Invoices_Agent'' ''status?''
               = Inr out \<and> reply out = ''Invoice 42 is paid.'')"
proof -
  have m: "map_of overlapping_directory ''Invoices_Agent'' = Some (answering ''Invoice 42 is paid.'')"
    by (simp add: overlapping_directory_def)
  have f: "find_partial (str_lower sample_lib) ''Invoices_Agent'' (map fst overlapping_directory)
       = Some ''Invoices_Agent_v2''"
    by (simp add: sample_defs)
  have d: "delegate sample_lib (answering ''Invoice 42 is paid.'') ''Invoices_Agent'' m p
             = ''Invoice 42 is paid.''" for m p
    by (simp add: delegate_defs sample_lib_def answering_def)
  have u: "usable (answering ''Invoice 42 is paid.'')" by (simp add: answering_def)
  from exact_name_is_resolved_first[OF m, of sample_lib "[]" 0 "''status?''"] m f
  show ?thesis by (simp add: d u)
qed

text \<open>
  C6: a requested name that is no key of the directory goes to the first key, in the order
  of the directory, such that the lowered requested name is a substring of the lowered key
  or the lowered key a substring of the lowered requested name (\<open>str_in\<close> is the substring
  test). When no key matches, \<^verbatim>\<open>send_message\<close> returns the error string that lists the keys
  of the directory, separated by commas, calls no connection and draws no identifier.
\<close>

theorem partial_match_or_error:
  assumes "agent_name \<notin> set (map fst conns)"
  shows "resolve_agent l conns agent_name =
           (case List.find (\<lambda>card_name.
                    str_in (str_lower l agent_name) (str_lower l card_name)
                    \<or> str_in (str_lower l card_name) (str_lower l agent_name)) (map fst conns) of
              Some card_name \<Rightarrow> Inr card_name
            | None \<Rightarrow> Inl (''Error: Agent '' @ [CHR 0x27] @ agent_name @ [CHR 0x27]
                           @ '' not found. Available agents: '' @ str_join '', '' (map fst conns)))
         \<and> (List.find (\<lambda>card_name.
                    str_in (str_lower l agent_name) (str_lower l card_name)
                    \<or> str_in (str_lower l card_name) (str_lower l agent_name)) (map fst conns) = None
             \<longrightarrow> send_message l conns state n agent_name task =
                   Inr \<lparr>reply = ''Error: Agent '' @ [CHR 0x27] @ agent_name @ [CHR 0x27]
                           @ '' not found. Available agents: '' @ str_join '', '' (map fst conns),
                        called = None, drawn = n, state_after = state\<rparr>)
         \<and> (\<forall>needle hay. str_in needle hay \<longleftrightarrow> (\<exists>before after. hay = before @ needle @ after))"
proof -
  have r: "resolve_agent l conns agent_name =
           (case List.find (\<lambda>card_name.
                    str_in (str_lower l agent_name) (str_lower l card_name)
                    \<or> str_in (str_lower l card_name) (str_lower l agent_name)) (map fst conns) of
              Some card_name \<Rightarrow> Inr card_name
            | None \<Rightarrow> Inl (''Error: Agent '' @ [CHR 0x27] @ agent_name @ [CHR 0x27]
                           @ '' not found. Available agents: '' @ str_join '', '' (map fst conns)))"
    using assms by (simp add: resolve_agent_def find_partial_find not_found_def split: option.splits)
  then show ?thesis
    using str_in_iff by (auto simp: send_message_def)
qed

theorem partial_match_or_error_witness:
  "''invoice'' \<notin> set (map fst sample_directory)
   \<and> resolve_agent sample_lib sample_directory ''invoice'' = Inr ''Invoices_Agent''
   \<and> ''Weather'' \<notin> set (map fst sample_directory)
   \<and> send_message sample_lib sample_directory [] 0 ''Weather'' ''rain?'' =
       Inr \<lparr>reply = ''Error: Agent '' @ [CHR 0x27] @ ''Weather'' @ [CHR 0x27]
                 @ '' not found. Available agents: Imports_Agent, Invoices_Agent'',
            called = None, drawn = 0, state_after = []\<rparr>"
proof -
  have a: "''invoice'' \<notin> set (map fst sample_directory)"
    by (simp add: sample_directory_def)
  have b: "''Weather'' \<notin> set (map fst sample_directory)"
    by (simp add: sample_directory_def)
  from partial_match_or_error[OF a, of sample_lib "[]" 0 "''x''"]
  have 1: "resolve_agent sample_lib sample_directory ''invoice'' = Inr ''Invoices_Agent''"
    by (simp add: sample_defs)
  from partial_match_or_error[OF b, of sample_lib "[]" 0 "''rain?''"]
  have 2: "send_message sample_lib sample_directory [] 0 ''Weather'' ''rain?'' =
       Inr \<lparr>reply = ''Error: Agent '' @ [CHR 0x27] @ ''Weather'' @ [CHR 0x27]
                 @ '' not found. Available agents: Imports_Agent, Invoices_Agent'',
            called = None, drawn = 0, state_after = []\<rparr>"
    by (simp add: sample_defs)
  from a b 1 2 show ?thesis by simp
qed


subsection \<open>Failures of a delegation\<close>

text \<open>
  C8: once a name is resolved and its connection is usable, \<^verbatim>\<open>send_message\<close> returns a
  value and never an exception. When validating or sending the request raises, the string
  returned is \<^verbatim>\<open>Error communicating with\<close>, the resolved name and the text of the
  exception; when the answer is an error response or a success response that carries no
  task, it is \<^verbatim>\<open>Error: Invalid response from agent\<close> and the resolved name. An exception
  raised while the text of a task is extracted is reported in the first form as well.
\<close>

theorem failed_delegation_returns_error_string:
  assumes "resolve_agent l conns agent_name = Inr name"
    and "map_of conns name = Some client"
    and "usable client"
  shows "\<exists>out. send_message l conns state n agent_name task = Inr out
           \<and> (case send_request l client (uuid4 l (n + 2))
                      (make_payload task (uuid4 l (n + 2))
                         (dict_get state ''task_id'' (JStr (uuid4 l n)))
                         (dict_get state ''context_id'' (JStr (uuid4 l (n + 1))))) of
                 Inl e \<Rightarrow>
                   reply out = ''Error communicating with '' @ name @ '': '' @ exn_str l e
               | Inr ErrorResponse \<Rightarrow>
                   reply out = ''Error: Invalid response from agent '' @ name
               | Inr MessageResponse \<Rightarrow>
                   reply out = ''Error: Invalid response from agent '' @ name
               | Inr (TaskResponse json_content) \<Rightarrow>
                   reply out =
                     (case extract_text (json_dumps l) json_content of
                        Inl e \<Rightarrow> ''Error communicating with '' @ name @ '': '' @ exn_str l e
                      | Inr returned \<Rightarrow> returned))"
  using assms
  by (simp add: send_message_def Let_def delegate_def then_do_def communication_error_def
      invalid_response_def split: sum.splits send_response.splits)

theorem failed_delegation_returns_error_string_witness:
  "resolve_agent sample_lib failing_directory ''invoices'' = Inr ''Invoices_Agent''
   \<and> map_of failing_directory ''Invoices_Agent'' = Some unreachable
   \<and> usable unreachable
   \<and> (\<exists>out. send_message sample_lib failing_directory [] 0 ''invoices'' ''status?'' = Inr out
          \<and> reply out = ''Error communicating with Invoices_Agent: All connection attempts failed'')
   \<and> resolve_agent sample_lib failing_directory ''Imports_Agent'' = Inr ''Imports_Agent''
   \<and> map_of failing_directory ''Imports_Agent'' = Some refusing
   \<and> usable refusing
   \<and> (\<exists>out. send_message sample_lib failing_directory [] 0 ''Imports_Agent'' ''documents?'' = Inr out
          \<and> reply out = ''Error: Invalid response from agent Imports_Agent'')"
proof -
  have r1: "resolve_agent sample_lib failing_directory ''invoices'' = Inr ''Invoices_Agent''"
    by (simp add: resolve_agent_def sample_defs)
  have m1: "map_of failing_directory ''Invoices_Agent'' = Some unreachable"
    by (simp add: failing_directory_def)
  have u1: "usable unreachable" by (simp add: unreachable_def)
  have r2: "resolve_agent sample_lib failing_directory ''Imports_Agent'' = Inr ''Imports_Agent''"
    by (simp add: resolve_agent_def sample_defs)
  have m2: "map_of failing_directory ''Imports_Agent'' = Some refusing"
    by (simp add: failing_directory_def)
  have u2: "usable refusing" by (simp add: refusing_def)
  have s1: "send_request sample_lib unreachable m p = Inl (Raised ''All connection attempts failed'')"
    for m p by (simp add: send_request_def then_do_def sample_lib_def unreachable_def)
  have s2: "send_request sample_lib refusing m p = Inr ErrorResponse"
    for m p by (simp add: send_request_def then_do_def sample_lib_def refusing_def)
  have x: "exn_str sample_lib (Raised msg) = msg" for msg by (simp add: sample_lib_def)
  from failed_delegation_returns_error_string[OF r1 m1 u1, of "[]" 0 "''status?''"]
    failed_delegation_returns_error_string[OF r2 m2 u2, of "[]" 0 "''documents?''"]
    r1 m1 u1 r2 m2 u2
  show ?thesis by (simp add: s1 s2 x)
qed

subsection \<open>Identifiers of a session\<close>

lemma send_message_keeps_state:
  "send_message l conns state n agent_name task = Inr out \<Longrightarrow> state_after out = state"
  by (auto simp: send_message_def Let_def split: sum.splits option.splits if_splits)

text \<open>
  C2 fails on the code: \<^verbatim>\<open>send_message\<close> reads \<^verbatim>\<open>task_id\<close> and \<^verbatim>\<open>context_id\<close> from the
  state of the tool context and never writes them. Two delegations in a row in a session
  whose state starts empty each draw three new identifiers: the first request carries the
  task \<^verbatim>\<open>u\<close> and the context \<^verbatim>\<open>ux\<close>, the second the task \<^verbatim>\<open>uxxx\<close> and the context
  \<^verbatim>\<open>uxxxx\<close>, and the state is empty after both.
\<close>

theorem identifiers_are_drawn_again:
  "send_message sample_lib sample_directory [] 0 ''Invoices_Agent'' ''first'' =
     Inr \<lparr>reply = ''Invoice 42 is paid.'',
          called = Some (''Invoices_Agent'', ''uxx'',
                         make_payload ''first'' ''uxx'' (JStr ''u'') (JStr ''ux'')),
          drawn = 3, state_after = []\<rparr>
   \<and> send_message sample_lib sample_directory [] 3 ''Invoices_Agent'' ''second'' =
     Inr \<lparr>reply = ''Invoice 42 is paid.'',
          called = Some (''Invoices_Agent'', ''uxxxxx'',
                         make_payload ''second'' ''uxxxxx'' (JStr ''uxxx'') (JStr ''uxxxx'')),
          drawn = 6, state_after = []\<rparr>"
proof -
  have r: "resolve_agent sample_lib sample_directory ''Invoices_Agent'' = Inr ''Invoices_Agent''"
    by (simp add: resolve_agent_def sample_directory_def)
  have m: "map_of sample_directory ''Invoices_Agent'' = Some (answering ''Invoice 42 is paid.'')"
    by (simp add: sample_directory_def)
  have u: "usable (answering ''Invoice 42 is paid.'')" by (simp add: answering_def)
  have d: "delegate sample_lib (answering ''Invoice 42 is paid.'') ''Invoices_Agent'' i p
             = ''Invoice 42 is paid.''" for i p
    by (simp add: delegate_defs sample_lib_def answering_def)
  have v: "model_validate sample_lib p = Inr p" for p by (simp add: sample_lib_def)
  have i: "uuid4 sample_lib k = ''u'' @ replicate k (CHR ''x'')" for k
    by (simp add: sample_lib_def)
  have three: "(3::nat) = Suc (Suc (Suc 0))" "(4::nat) = Suc (Suc (Suc (Suc 0)))"
    "(5::nat) = Suc (Suc (Suc (Suc (Suc 0))))" "(2::nat) = Suc (Suc 0)" by simp_all
  show ?thesis
    by (simp add: send_message_def Let_def r m u d v i dict_get_def)
       (simp add: three)
qed

end
